theory Spec2Isabelle
  imports Main
begin

section \<open>Instruction set architectures: the data of \<open>cdsl/isa.py\<close>\<close>

text \<open>
  The module defines four classes: \<open>TargetISA\<close>, \<open>CPUMode\<close>, \<open>EncRecipe\<close> and \<open>Encoding\<close>.
  None of them defines \<open>__eq__\<close> or \<open>__hash__\<close>, so membership in a Python \<open>set\<close>
  and \<open>==\<close> compare object identity. Objects that the module mutates after their
  construction, and that several owners share, are kept in a heap indexed by references;
  objects that the module only reads are values that carry their identity.
\<close>

type_synonym recipe_ref = nat
type_synonym pred_ref = nat
type_synonym rc_ref = nat
type_synonym cpumode_ref = nat
type_synonym isa_ref = nat
type_synonym ValueType = string

text \<open>
  Every failure in the module is a failed \<open>assert\<close>, except the attribute lookup on
  \<open>self.settings\<close> while it is still \<open>None\<close>. The constructors below tell the
  assertions apart, under the names of the specification's error taxonomy:
  line 197 is \<open>SizeError\<close>, line 203 \<open>PredicateContextError\<close>, lines 223, 225 and 227
  \<open>ConstraintError\<close>, line 208 \<open>ArityError\<close>, line 269 \<open>FormatMismatchError\<close> and
  line 274 \<open>BranchRangeError\<close>.
\<close>

datatype error =
    SizeError
  | PredicateContextError
  | ConstraintError
  | ArityError
  | FormatMismatchError
  | BranchRangeError
  | AttributeError

text \<open>
  Modelled from the spec: \<open>InstructionFormat\<close> and \<open>Instruction\<close> live in
  \<open>instructions.py\<close>. The module reads \<open>has_value_list\<close> and \<open>num_value_operands\<close> of
  a format, and \<open>format\<close>, \<open>is_branch\<close> and \<open>name\<close> of an instruction, and compares
  formats with \<open>==\<close>, which is identity: \<open>format_id\<close> stands for it.
\<close>

record InstructionFormat =
  format_id :: nat
  has_value_list :: bool
  num_value_operands :: int

record Instruction =
  name :: string
  format :: InstructionFormat
  is_branch :: bool

text \<open>
  Modelled from the spec: \<open>predicate_context()\<close> of \<open>predicates.py\<close> returns the
  evaluation context of a predicate, an instruction format or something else
  (a settings group).
\<close>

datatype PredContext = FormatContext InstructionFormat | OtherContext

text \<open>
  \<open>OperandConstraint = Union[RegClass, Register, int]\<close>. Python checks the union at run
  time only, in \<open>_verify_constraints\<close>, so a constraint can be any other value too.
\<close>

datatype OperandConstraint =
    CInt int
  | CRegClass rc_ref
  | CRegister nat
  | COther

text \<open>\<open>ConstraintSeq\<close>: a single constraint, or a tuple of them.\<close>

datatype ConstraintSeq = Single OperandConstraint | Tuple "OperandConstraint list"

record EncRecipe =
  name :: string
  format :: InstructionFormat
  size_bytes :: int
  branch_range :: "int list option"
  instp :: "pred_ref option"
  isap :: "pred_ref option"
  number :: "nat option"
  ins :: "OperandConstraint list"
  outs :: "OperandConstraint list"

record Encoding =
  inst :: Instruction
  typevars :: "ValueType list"
  cpumode :: cpumode_ref
  recipe :: recipe_ref
  encbits :: int
  instp :: "pred_ref option"
  isap :: "pred_ref option"

record CPUMode =
  name :: string
  isa :: isa_ref
  encodings :: "Encoding list"

text \<open>
  Modelled from the spec: a register bank of \<open>registers.py\<close> owns an ordered list of
  register classes.
\<close>

record RegBank =
  name :: string
  classes :: "rc_ref list"

text \<open>
  \<open>all_recipes\<close> and \<open>all_instps\<close> are not set by \<open>__init__\<close>: the attributes exist
  only once \<open>finish\<close> has run, hence the options. \<open>settings\<close> is \<open>None\<close> until the
  definition assigns a settings group, whose state has the type \<open>'s\<close>.
\<close>

record 's TargetISA =
  name :: string
  settings :: "'s option"
  instruction_groups :: "string list"
  cpumodes :: "CPUMode list"
  regbanks :: "RegBank list"
  all_recipes :: "recipe_ref list option"
  all_instps :: "pred_ref list option"

text \<open>
  The heap. \<open>recipes\<close> holds the \<open>EncRecipe\<close> objects. Predicates and register classes
  are objects of other modules: the heap has the fields of them that this module and
  the operations it calls touch, one map per field: \<open>number\<close> of a predicate, the parts
  of an \<open>And\<close> node, \<open>index\<close> of a register class. \<open>pred_fresh\<close> is the next unused
  predicate reference.
\<close>

record heap =
  recipes :: "recipe_ref \<Rightarrow> EncRecipe"
  pred_number :: "pred_ref \<Rightarrow> nat option"
  pred_parts :: "pred_ref \<Rightarrow> pred_ref list"
  pred_fresh :: pred_ref
  rc_index :: "rc_ref \<Rightarrow> nat option"

section \<open>EncRecipe\<close>

text \<open>The body of the loop of \<open>_verify_constraints\<close>, lines 220 to 227.\<close>

fun verify_constraint :: "InstructionFormat \<Rightarrow> OperandConstraint \<Rightarrow> error + unit" where
  "verify_constraint fmt (CInt c) =
     (if \<not> c \<ge> 0 then Inl ConstraintError
      else if \<not> has_value_list fmt \<and> \<not> c < num_value_operands fmt then Inl ConstraintError
      else Inr ())"
| "verify_constraint fmt (CRegClass rc) = Inr ()"
| "verify_constraint fmt (CRegister r) = Inr ()"
| "verify_constraint fmt COther = Inl ConstraintError"

fun verify_loop :: "InstructionFormat \<Rightarrow> OperandConstraint list \<Rightarrow> error + unit" where
  "verify_loop fmt [] = Inr ()"
| "verify_loop fmt (c # cs) =
     (case verify_constraint fmt c of Inl e \<Rightarrow> Inl e | Inr u \<Rightarrow> verify_loop fmt cs)"

definition verify_constraints ::
  "InstructionFormat \<Rightarrow> ConstraintSeq \<Rightarrow> error + OperandConstraint list" where
  "verify_constraints fmt seq =
     (let seq' = (case seq of Tuple cs \<Rightarrow> cs | Single c \<Rightarrow> [c])
      in case verify_loop fmt seq' of Inl e \<Rightarrow> Inl e | Inr u \<Rightarrow> Inr seq')"

text \<open>
  \<open>EncRecipe.__init__\<close>. The first argument stands for the method
  \<open>predicate_context\<close> of the predicate objects. A predicate object is truthy, so
  \<open>if instp\<close> asks whether it is present.
\<close>

definition EncRecipe_init ::
  "(pred_ref \<Rightarrow> PredContext) \<Rightarrow> string \<Rightarrow> InstructionFormat \<Rightarrow> int \<Rightarrow> ConstraintSeq \<Rightarrow>
   ConstraintSeq \<Rightarrow> int list option \<Rightarrow> pred_ref option \<Rightarrow> pred_ref option \<Rightarrow> error + EncRecipe" where
  "EncRecipe_init predicate_context nm fmt sz ins_arg outs_arg br ip sp =
     (if \<not> sz \<ge> 0 then Inl SizeError
      else if (case ip of None \<Rightarrow> False | Some p \<Rightarrow> predicate_context p \<noteq> FormatContext fmt)
        then Inl PredicateContextError
      else (case verify_constraints fmt ins_arg of
         Inl e \<Rightarrow> Inl e
       | Inr ins' \<Rightarrow>
           (if \<not> has_value_list fmt \<and> int (length ins') \<noteq> num_value_operands fmt
              then Inl ArityError
            else (case verify_constraints fmt outs_arg of
               Inl e \<Rightarrow> Inl e
             | Inr outs' \<Rightarrow>
                 Inr \<lparr>EncRecipe.name = nm, format = fmt, size_bytes = sz, branch_range = br,
                      instp = ip, isap = sp, number = None, ins = ins', outs = outs'\<rparr>))))"

section \<open>Encoding\<close>

text \<open>
  Modelled from the spec: \<open>And.combine\<close> of \<open>predicates.py\<close>. An absent predicate is
  the identity; two present predicates give a new conjunction node, a fresh object
  with the two as its parts and no number yet.
\<close>

definition And_combine :: "pred_ref option \<Rightarrow> pred_ref option \<Rightarrow> heap \<Rightarrow> pred_ref option \<times> heap" where
  "And_combine a b h =
     (case a of
        None \<Rightarrow> (b, h)
      | Some p \<Rightarrow>
          (case b of
             None \<Rightarrow> (Some p, h)
           | Some q \<Rightarrow>
               (let n = pred_fresh h
                in (Some n, h\<lparr>pred_number := (pred_number h)(n := None),
                              pred_parts := (pred_parts h)(n := [p, q]),
                              pred_fresh := Suc n\<rparr>))))"

text \<open>
  Modelled from the spec: the instruction argument \<open>InstSpec = Union[MaybeBoundInst, Apply]\<close>.
  An \<open>Apply\<close> has the fields \<open>inst\<close> and \<open>typevars\<close> and the predicate that
  \<open>inst_predicate()\<close> returns for its operands; any other argument is a bound
  instruction, given by the pair that \<open>fully_bound()\<close> returns.
\<close>

datatype InstSpec =
    Apply Instruction "ValueType list" "pred_ref option"
  | Bound Instruction "ValueType list"

text \<open>\<open>assert recipe.branch_range\<close>: \<open>None\<close> and the empty sequence are falsy.\<close>

fun truthy_range :: "int list option \<Rightarrow> bool" where
  "truthy_range None = False"
| "truthy_range (Some xs) = (xs \<noteq> [])"

text \<open>
  \<open>Encoding.__init__\<close>. The two \<open>isinstance\<close> assertions hold by typing. The recipe
  argument is a reference; its fields are read from the heap.
\<close>

definition Encoding_init ::
  "cpumode_ref \<Rightarrow> InstSpec \<Rightarrow> recipe_ref \<Rightarrow> int \<Rightarrow> pred_ref option \<Rightarrow> pred_ref option \<Rightarrow>
   heap \<Rightarrow> error + (Encoding \<times> heap)" where
  "Encoding_init cm inst_arg rcp bits ip sp h =
     (let (ip1, i, tvs, h1) =
            (case inst_arg of
               Apply ai atvs ap \<Rightarrow> (let (p, h') = And_combine ip ap h in (p, ai, atvs, h'))
             | Bound bi btvs \<Rightarrow> (ip, bi, btvs, h));
          r = recipes h1 rcp
      in if Instruction.format i \<noteq> EncRecipe.format r then Inl FormatMismatchError
         else if is_branch i \<and> \<not> truthy_range (branch_range r) then Inl BranchRangeError
         else
           (let (ip2, h2) = And_combine (EncRecipe.instp r) ip1 h1;
                (sp2, h3) = And_combine (EncRecipe.isap r) sp h2
            in Inr (\<lparr>inst = i, typevars = tvs, cpumode = cm, recipe = rcp, encbits = bits,
                     instp = ip2, isap = sp2\<rparr>, h3)))"

text \<open>\<open>Encoding.ctrl_typevar\<close>.\<close>

definition ctrl_typevar :: "Encoding \<Rightarrow> ValueType option" where
  "ctrl_typevar e = (case typevars e of [] \<Rightarrow> None | t # ts \<Rightarrow> Some t)"

section \<open>CPUMode\<close>

text \<open>
  \<open>CPUMode.enc\<close>: build the encoding for this mode and append it. \<open>self\<close> is passed
  as the mode's reference and its record, and the updated record is returned.
\<close>

definition enc ::
  "cpumode_ref \<Rightarrow> CPUMode \<Rightarrow> InstSpec \<Rightarrow> recipe_ref \<Rightarrow> int \<Rightarrow> pred_ref option \<Rightarrow>
   pred_ref option \<Rightarrow> heap \<Rightarrow> error + (CPUMode \<times> heap)" where
  "enc self m inst_arg rcp bits ip sp h =
     (case Encoding_init self inst_arg rcp bits ip sp h of
        Inl e \<Rightarrow> Inl e
      | Inr (e, h') \<Rightarrow> Inr (m\<lparr>encodings := encodings m @ [e]\<rparr>, h'))"

section \<open>TargetISA\<close>

text \<open>\<open>recipe.number = n\<close> on the recipe object behind a reference.\<close>

definition set_recipe_number :: "recipe_ref \<Rightarrow> nat \<Rightarrow> heap \<Rightarrow> heap" where
  "set_recipe_number r n h = h\<lparr>recipes := (recipes h)(r := (recipes h r)\<lparr>number := Some n\<rparr>)\<rparr>"

text \<open>
  The body of the inner loop of \<open>_collect_encoding_recipes\<close>, lines 71 to 75, on the
  list \<open>self.all_recipes\<close>, the set \<open>rcps\<close> and the heap.
\<close>

definition collect_recipe ::
  "Encoding \<Rightarrow> recipe_ref list \<times> recipe_ref set \<times> heap \<Rightarrow> recipe_ref list \<times> recipe_ref set \<times> heap" where
  "collect_recipe e = (\<lambda>(all_rs, rcps, h).
     let r = recipe e
     in if r \<notin> rcps
        then (all_rs @ [r], insert r rcps, set_recipe_number r (card rcps) h)
        else (all_rs, rcps, h))"

definition collect_encoding_recipes :: "'s TargetISA \<Rightarrow> heap \<Rightarrow> 's TargetISA \<times> heap" where
  "collect_encoding_recipes self h =
     (let (all_rs, rcps, h') =
            fold (\<lambda>cpumode. fold collect_recipe (encodings cpumode)) (cpumodes self) ([], {}, h)
      in (self\<lparr>all_recipes := Some all_rs\<rparr>, h'))"

text \<open>
  The first statement of the inner loop of \<open>_collect_predicates\<close>, lines 92 to 97.
  A predicate object is truthy, so \<open>if instp\<close> asks whether it is present.
\<close>

definition collect_instp ::
  "Encoding \<Rightarrow> pred_ref list \<times> pred_ref set \<times> heap \<Rightarrow> pred_ref list \<times> pred_ref set \<times> heap" where
  "collect_instp e = (\<lambda>(all_ps, instps, h).
     case Encoding.instp e of
       None \<Rightarrow> (all_ps, instps, h)
     | Some p \<Rightarrow>
         if p \<notin> instps
         then (all_ps @ [p], insert p instps, h\<lparr>pred_number := (pred_number h)(p := Some (card instps))\<rparr>)
         else (all_ps, instps, h))"

text \<open>
  The second statement of the inner loop, lines 102 and 103. \<open>number_predicate\<close> is a method of the
  settings group, of \<open>settings.py\<close>: it is a parameter here, a function on the state of
  the settings group. While \<open>self.settings\<close> is \<open>None\<close> the call raises.
\<close>

definition number_isap ::
  "('s \<Rightarrow> pred_ref \<Rightarrow> 's) \<Rightarrow> Encoding \<Rightarrow> 's option \<Rightarrow> error + 's option" where
  "number_isap number_predicate e s =
     (case Encoding.isap e of
        None \<Rightarrow> Inr s
      | Some q \<Rightarrow>
          (case s of
             None \<Rightarrow> Inl AttributeError
           | Some g \<Rightarrow> Inr (Some (number_predicate g q))))"

fun collect_predicates_encodings ::
  "('s \<Rightarrow> pred_ref \<Rightarrow> 's) \<Rightarrow> Encoding list \<Rightarrow>
   (pred_ref list \<times> pred_ref set \<times> heap) \<times> 's option \<Rightarrow>
   error + ((pred_ref list \<times> pred_ref set \<times> heap) \<times> 's option)" where
  "collect_predicates_encodings np [] st = Inr st"
| "collect_predicates_encodings np (e # es) st =
     (let ps' = collect_instp e (fst st)
      in case number_isap np e (snd st) of
           Inl err \<Rightarrow> Inl err
         | Inr s' \<Rightarrow> collect_predicates_encodings np es (ps', s'))"

fun collect_predicates_modes ::
  "('s \<Rightarrow> pred_ref \<Rightarrow> 's) \<Rightarrow> CPUMode list \<Rightarrow>
   (pred_ref list \<times> pred_ref set \<times> heap) \<times> 's option \<Rightarrow>
   error + ((pred_ref list \<times> pred_ref set \<times> heap) \<times> 's option)" where
  "collect_predicates_modes np [] st = Inr st"
| "collect_predicates_modes np (m # ms) st =
     (case collect_predicates_encodings np (encodings m) st of
        Inl err \<Rightarrow> Inl err
      | Inr st' \<Rightarrow> collect_predicates_modes np ms st')"

definition collect_predicates ::
  "('s \<Rightarrow> pred_ref \<Rightarrow> 's) \<Rightarrow> 's TargetISA \<Rightarrow> heap \<Rightarrow> error + ('s TargetISA \<times> heap)" where
  "collect_predicates np self h =
     (case collect_predicates_modes np (cpumodes self) (([], {}, h), settings self) of
        Inl err \<Rightarrow> Inl err
      | Inr ((all_ps, instps, h'), s') \<Rightarrow> Inr (self\<lparr>settings := s', all_instps := Some all_ps\<rparr>, h'))"

text \<open>
  Modelled from the spec: \<open>RegBank.finish_regclasses\<close> of \<open>registers.py\<close> gives the
  classes of the bank, in their order, the indices from \<open>first_index\<close> on.
\<close>

definition finish_regclasses :: "RegBank \<Rightarrow> nat \<Rightarrow> heap \<Rightarrow> heap" where
  "finish_regclasses bank first_index h =
     fold (\<lambda>(idx, rc) h'. h'\<lparr>rc_index := (rc_index h')(rc := Some (idx + first_index))\<rparr>)
          (enumerate 0 (classes bank)) h"

text \<open>The loop of \<open>_collect_regclasses\<close>, with the counter \<open>rc_index\<close> as an argument.\<close>

fun collect_regclasses_loop :: "RegBank list \<Rightarrow> nat \<Rightarrow> heap \<Rightarrow> heap" where
  "collect_regclasses_loop [] i h = h"
| "collect_regclasses_loop (bank # banks) i h =
     collect_regclasses_loop banks (i + length (classes bank)) (finish_regclasses bank i h)"

definition collect_regclasses :: "'s TargetISA \<Rightarrow> heap \<Rightarrow> heap" where
  "collect_regclasses self h = collect_regclasses_loop (regbanks self) 0 h"

text \<open>
  \<open>TargetISA.finish\<close>. \<open>self\<close> is passed as its record; \<open>return self\<close> returns the
  record as the three passes have left it.
\<close>

definition finish ::
  "('s \<Rightarrow> pred_ref \<Rightarrow> 's) \<Rightarrow> 's TargetISA \<Rightarrow> heap \<Rightarrow> error + ('s TargetISA \<times> heap)" where
  "finish np self h =
     (let (self1, h1) = collect_encoding_recipes self h
      in case collect_predicates np self1 h1 of
           Inl err \<Rightarrow> Inl err
         | Inr (self2, h2) \<Rightarrow> Inr (self2, collect_regclasses self2 h2))"

section \<open>What the claims speak of\<close>

text \<open>The elements of a list in the order of their first occurrence, each once.\<close>

fun first_occurrences :: "'a list \<Rightarrow> 'a list" where
  "first_occurrences [] = []"
| "first_occurrences (x # xs) = x # first_occurrences (filter (\<lambda>y. y \<noteq> x) xs)"

text \<open>The encodings of an ISA in scan order: CPU modes in order, each mode's encodings in order.\<close>

definition scan :: "'s TargetISA \<Rightarrow> Encoding list" where
  "scan self = concat (map encodings (cpumodes self))"

text \<open>The recipes, and the instruction predicates that are present, along the scan.\<close>

definition scan_recipes :: "'s TargetISA \<Rightarrow> recipe_ref list" where
  "scan_recipes self = map recipe (scan self)"

definition scan_instps :: "'s TargetISA \<Rightarrow> pred_ref list" where
  "scan_instps self = concat (map (\<lambda>e. case Encoding.instp e of None \<Rightarrow> [] | Some p \<Rightarrow> [p]) (scan self))"

text \<open>The instruction and the type variables that an instruction argument resolves to.\<close>

fun spec_inst :: "InstSpec \<Rightarrow> Instruction" where
  "spec_inst (Apply i tvs p) = i"
| "spec_inst (Bound i tvs) = i"

fun spec_typevars :: "InstSpec \<Rightarrow> ValueType list" where
  "spec_typevars (Apply i tvs p) = tvs"
| "spec_typevars (Bound i tvs) = tvs"

text \<open>
  The instruction predicate after line 262: for an applied form the caller's predicate
  combined with the one of the operands, otherwise the caller's predicate.
\<close>

fun resolved_instp :: "InstSpec \<Rightarrow> pred_ref option \<Rightarrow> heap \<Rightarrow> pred_ref option \<times> heap" where
  "resolved_instp (Apply i tvs p) ip h = And_combine ip p h"
| "resolved_instp (Bound i tvs) ip h = (ip, h)"

text \<open>A constraint argument as a sequence: a single value is a sequence of one.\<close>

fun seq_items :: "ConstraintSeq \<Rightarrow> OperandConstraint list" where
  "seq_items (Tuple cs) = cs"
| "seq_items (Single c) = [c]"

text \<open>
  The invariant of a recipe's constraints, in the specification's words: an integer
  constraint is at least 0 and, unless the format has a variable-length operand list,
  below the format's number of value operands; any other constraint is a register
  class or a fixed register; without a variable-length operand list, there are as many
  input constraints as value operands.
\<close>

fun constraint_ok :: "InstructionFormat \<Rightarrow> OperandConstraint \<Rightarrow> bool" where
  "constraint_ok fmt (CInt c) = (0 \<le> c \<and> (has_value_list fmt \<or> c < num_value_operands fmt))"
| "constraint_ok fmt (CRegClass rc) = True"
| "constraint_ok fmt (CRegister r) = True"
| "constraint_ok fmt COther = False"

definition constraints_ok ::
  "InstructionFormat \<Rightarrow> OperandConstraint list \<Rightarrow> OperandConstraint list \<Rightarrow> bool" where
  "constraints_ok fmt cs_in cs_out =
     (list_all (constraint_ok fmt) cs_in \<and> list_all (constraint_ok fmt) cs_out \<and>
      (has_value_list fmt \<or> int (length cs_in) = num_value_operands fmt))"

text \<open>
  The shape that the two collecting loops share: an element not seen yet is appended,
  recorded as seen and given the number of elements seen before it.
\<close>

definition collect_new ::
  "('a \<Rightarrow> nat \<Rightarrow> 'h \<Rightarrow> 'h) \<Rightarrow> 'a \<Rightarrow> 'a list \<times> 'a set \<times> 'h \<Rightarrow> 'a list \<times> 'a set \<times> 'h" where
  "collect_new upd x = (\<lambda>(all_xs, seen, h).
     if x \<notin> seen then (all_xs @ [x], insert x seen, upd x (card seen) h) else (all_xs, seen, h))"

text \<open>Numbering the elements of a list from \<open>k\<close> on, in their order.\<close>

definition assign_numbers :: "('a \<Rightarrow> nat \<Rightarrow> 'h \<Rightarrow> 'h) \<Rightarrow> nat \<Rightarrow> 'a list \<Rightarrow> 'h \<Rightarrow> 'h" where
  "assign_numbers upd k xs h = fold (\<lambda>(i, x). upd x i) (enumerate k xs) h"

definition set_pred_number :: "pred_ref \<Rightarrow> nat \<Rightarrow> heap \<Rightarrow> heap" where
  "set_pred_number p n h = h\<lparr>pred_number := (pred_number h)(p := Some n)\<rparr>"

definition set_rc_index :: "rc_ref \<Rightarrow> nat \<Rightarrow> heap \<Rightarrow> heap" where
  "set_rc_index rc n h = h\<lparr>rc_index := (rc_index h)(rc := Some n)\<rparr>"

text \<open>
  The ISA predicates that are present along the scan, and the register classes of an ISA
  in the order of its banks.
\<close>

definition scan_isaps :: "'s TargetISA \<Rightarrow> pred_ref list" where
  "scan_isaps self = concat (map (\<lambda>e. case Encoding.isap e of None \<Rightarrow> [] | Some q \<Rightarrow> [q]) (scan self))"

definition all_classes :: "'s TargetISA \<Rightarrow> rc_ref list" where
  "all_classes self = concat (map classes (regbanks self))"

text \<open>
  The values of an optional field that are present, in the order of the list.
\<close>

definition present :: "('e \<Rightarrow> 'a option) \<Rightarrow> 'e list \<Rightarrow> 'a list" where
  "present f es = concat (map (\<lambda>e. case f e of None \<Rightarrow> [] | Some p \<Rightarrow> [p]) es)"

text \<open>
  The next free index when the loop of \<open>_collect_regclasses\<close> reaches the bank at
  position \<open>k\<close>: the number of classes of the banks before it.
\<close>

definition first_index :: "'s TargetISA \<Rightarrow> nat \<Rightarrow> nat" where
  "first_index self k = length (concat (map classes (take k (regbanks self))))"

section \<open>An example definition\<close>

text \<open>
  Two formats, three instructions of which one is a branch, and four recipes:
  \<open>R1\<close> and \<open>R2\<close> are the recipes of the specification's example scenario, the third
  encodes branches and has a range, the fourth is for the branch format but has none.
\<close>

definition example_F :: InstructionFormat where
  "example_F = \<lparr>format_id = 0, has_value_list = False, num_value_operands = 1\<rparr>"

definition example_J :: InstructionFormat where
  "example_J = \<lparr>format_id = 1, has_value_list = False, num_value_operands = 0\<rparr>"

definition example_add :: Instruction where
  "example_add = \<lparr>Instruction.name = ''add'', format = example_F, is_branch = False\<rparr>"

definition example_sub :: Instruction where
  "example_sub = \<lparr>Instruction.name = ''sub'', format = example_F, is_branch = False\<rparr>"

definition example_jump :: Instruction where
  "example_jump = \<lparr>Instruction.name = ''jump'', format = example_J, is_branch = True\<rparr>"

definition example_context :: "pred_ref \<Rightarrow> PredContext" where
  "example_context p = (if p < 10 then FormatContext example_F else OtherContext)"

definition example_R1 :: EncRecipe where
  "example_R1 = \<lparr>EncRecipe.name = ''R1'', format = example_F, size_bytes = 4, branch_range = None,
     instp = Some 3, isap = None, number = None, ins = [CRegClass 0], outs = [CInt 0]\<rparr>"

definition example_R2 :: EncRecipe where
  "example_R2 = \<lparr>EncRecipe.name = ''R2'', format = example_F, size_bytes = 4, branch_range = None,
     instp = None, isap = Some 11, number = None, ins = [CRegClass 0], outs = [CRegClass 1]\<rparr>"

definition example_RJ :: EncRecipe where
  "example_RJ = \<lparr>EncRecipe.name = ''RJ'', format = example_J, size_bytes = 2, branch_range = Some [0, 8],
     instp = None, isap = None, number = None, ins = [], outs = []\<rparr>"

definition example_RN :: EncRecipe where
  "example_RN = \<lparr>EncRecipe.name = ''RN'', format = example_J, size_bytes = 2, branch_range = None,
     instp = None, isap = None, number = None, ins = [], outs = []\<rparr>"

definition example_heap :: heap where
  "example_heap =
     \<lparr>recipes = (\<lambda>r. if r = 1 then example_R1 else if r = 2 then example_R2
                     else if r = 3 then example_RJ else example_RN),
      pred_number = (\<lambda>p. None), pred_parts = (\<lambda>p. []), pred_fresh = 20,
      rc_index = (\<lambda>rc. None)\<rparr>"

text \<open>
  A settings group that keeps the list of the predicates registered with it; registering
  one again changes nothing.
\<close>

definition example_np :: "pred_ref list \<Rightarrow> pred_ref \<Rightarrow> pred_ref list" where
  "example_np g q = (if q \<in> set g then g else g @ [q])"

text \<open>
  An ISA with two CPU modes and two register banks. The recipes \<open>1\<close> and \<open>2\<close> are shared
  by encodings of both modes, the recipe \<open>4\<close> is used by none.
\<close>

definition example_enc :: "Instruction \<Rightarrow> cpumode_ref \<Rightarrow> recipe_ref \<Rightarrow> int \<Rightarrow> pred_ref option \<Rightarrow> pred_ref option \<Rightarrow> Encoding" where
  "example_enc i m r bits ip sp =
     \<lparr>inst = i, typevars = [''i32''], cpumode = m, recipe = r, encbits = bits, instp = ip, isap = sp\<rparr>"

definition example_M1 :: CPUMode where
  "example_M1 = \<lparr>CPUMode.name = ''M1'', isa = 0, encodings =
     [example_enc example_add 0 1 16 (Some 3) None,
      example_enc example_sub 0 2 17 None (Some 11),
      example_enc example_sub 0 1 18 (Some 3) None]\<rparr>"

definition example_M2 :: CPUMode where
  "example_M2 = \<lparr>CPUMode.name = ''M2'', isa = 0, encodings =
     [example_enc example_jump 1 3 1 (Some 5) None,
      example_enc example_add 1 2 16 (Some 5) (Some 11)]\<rparr>"

definition example_isa :: "pred_ref list TargetISA" where
  "example_isa = \<lparr>TargetISA.name = ''example'', settings = Some [], instruction_groups = [''base''],
     cpumodes = [example_M1, example_M2],
     regbanks = [\<lparr>RegBank.name = ''A'', classes = [0, 1]\<rparr>, \<lparr>RegBank.name = ''B'', classes = [2, 3, 4]\<rparr>],
     all_recipes = None, all_instps = None\<rparr>"

text \<open>
  The ISA and the heap that \<open>finish\<close> leaves.
\<close>

definition example_isa' :: "pred_ref list TargetISA" where
  "example_isa' = example_isa\<lparr>settings := Some [11], all_recipes := Some [1, 2, 3],
     all_instps := Some [3, 5]\<rparr>"

definition example_heap' :: heap where
  "example_heap' = example_heap
     \<lparr>recipes := (\<lambda>r. if r = 1 then example_R1\<lparr>number := Some 0\<rparr>
                      else if r = 2 then example_R2\<lparr>number := Some 1\<rparr>
                      else if r = 3 then example_RJ\<lparr>number := Some 2\<rparr> else example_RN),
      pred_number := (\<lambda>p. if p = 3 then Some 0 else if p = 5 then Some 1 else None),
      rc_index := (\<lambda>c. if c < 5 then Some c else None)\<rparr>"

text \<open>
  The encoding of an applied instruction, whose operands imply the predicate \<open>6\<close>, under the
  caller's predicate \<open>5\<close> and the recipe \<open>1\<close>, and the heap with the two new conjunction nodes.
\<close>

definition example_applied :: Encoding where
  "example_applied = example_enc example_add 1 1 16 (Some 21) (Some 11)"

definition example_heap_applied :: heap where
  "example_heap_applied = example_heap
     \<lparr>pred_parts := (\<lambda>p. if p = 20 then [5, 6] else if p = 21 then [3, 20] else []),
      pred_fresh := 22\<rparr>"

section \<open>Recipes are validated\<close>

text \<open>
  \<open>_verify_constraints\<close> accepts a sequence exactly when each of its constraints is in
  order, and \<open>EncRecipe.__init__\<close> is a chain of checks in the order of the source.
\<close>

lemma verify_loop_ok: "verify_loop fmt cs = Inr () \<longleftrightarrow> list_all (constraint_ok fmt) cs"
proof (induction cs)
  case Nil
  show ?case by simp
next
  case (Cons c cs)
  then show ?case by (cases c) (auto split: sum.splits)
qed

lemma verify_loop_err: "verify_loop fmt cs = Inl e \<Longrightarrow> e = ConstraintError"
proof (induction cs)
  case Nil
  then show ?case by simp
next
  case (Cons c cs)
  then show ?case by (cases c) (auto split: sum.splits if_splits)
qed

lemma verify_constraints_eq:
  "verify_constraints fmt seq =
     (if list_all (constraint_ok fmt) (seq_items seq) then Inr (seq_items seq) else Inl ConstraintError)"
proof (cases "verify_loop fmt (seq_items seq)")
  case (Inl e)
  moreover from Inl have "e = ConstraintError" by (rule verify_loop_err)
  moreover have "\<not> list_all (constraint_ok fmt) (seq_items seq)"
    using Inl verify_loop_ok [of fmt "seq_items seq"] by simp
  ultimately show ?thesis
    by (cases seq) (simp_all add: verify_constraints_def)
next
  case (Inr u)
  then have "list_all (constraint_ok fmt) (seq_items seq)"
    using verify_loop_ok [of fmt "seq_items seq"] by simp
  with Inr show ?thesis
    by (cases seq) (simp_all add: verify_constraints_def)
qed

lemma EncRecipe_init_eq:
  "EncRecipe_init pc nm fmt sz i_arg o_arg br ip sp =
     (if sz < 0 then Inl SizeError
      else if \<exists>p. ip = Some p \<and> pc p \<noteq> FormatContext fmt then Inl PredicateContextError
      else if \<not> list_all (constraint_ok fmt) (seq_items i_arg) then Inl ConstraintError
      else if \<not> has_value_list fmt \<and> int (length (seq_items i_arg)) \<noteq> num_value_operands fmt
        then Inl ArityError
      else if \<not> list_all (constraint_ok fmt) (seq_items o_arg) then Inl ConstraintError
      else Inr \<lparr>EncRecipe.name = nm, format = fmt, size_bytes = sz, branch_range = br,
                instp = ip, isap = sp, number = None,
                ins = seq_items i_arg, outs = seq_items o_arg\<rparr>)"
  by (cases ip) (simp_all add: EncRecipe_init_def verify_constraints_eq not_le)

text \<open>
  Claim C9. The size of a recipe is checked first of all: constructing an \<open>EncRecipe\<close>
  with a negative size fails with \<open>SizeError\<close>, and a recipe that was constructed has
  the size it was given, which is not negative.
\<close>

theorem recipe_size_enforced:
  "(sz < 0 \<longrightarrow> EncRecipe_init pc nm fmt sz i_arg o_arg br ip sp = Inl SizeError) \<and>
   (EncRecipe_init pc nm fmt sz i_arg o_arg br ip sp = Inr r \<longrightarrow> size_bytes r = sz \<and> 0 \<le> size_bytes r)"
  by (auto simp: EncRecipe_init_eq split: if_splits)

lemma example_R1_init:
  "EncRecipe_init example_context ''R1'' example_F 4 (Single (CRegClass 0)) (Tuple [CInt 0]) None (Some 3) None
     = Inr example_R1"
  by (simp add: EncRecipe_init_eq example_R1_def example_F_def example_context_def)

theorem recipe_size_enforced_witness:
  "EncRecipe_init example_context ''R1'' example_F (- 1) (Single (CRegClass 0)) (Tuple [CInt 0]) None (Some 3) None
     = Inl SizeError \<and>
   EncRecipe_init example_context ''R1'' example_F 4 (Single (CRegClass 0)) (Tuple [CInt 0]) None (Some 3) None
     = Inr example_R1 \<and>
   size_bytes example_R1 = 4 \<and> 0 \<le> size_bytes example_R1"
  using recipe_size_enforced [of "- 1" example_context "''R1''" example_F "Single (CRegClass 0)" "Tuple [CInt 0]"
          None "Some 3" None example_R1]
        recipe_size_enforced [of 4 example_context "''R1''" example_F "Single (CRegClass 0)" "Tuple [CInt 0]"
          None "Some 3" None example_R1]
        example_R1_init
  by simp

text \<open>
  Claim C7, as amended. A recipe is constructed only when its constraints satisfy the
  invariant \<open>constraints_ok\<close>: every integer constraint of \<open>ins\<close> and \<open>outs\<close> is at least 0
  and, for a format without a variable-length operand list, below \<open>num_value_operands\<close>;
  every other constraint is a register class or a fixed register; and, for such a format,
  \<open>ins\<close> has \<open>num_value_operands\<close> elements. The stored sequences are the arguments, a single
  value as a sequence of one. Any violation makes the construction fail. The checks run
  in the order of the source, and the first that fails names the error: a negative size
  gives \<open>SizeError\<close>; otherwise an instruction predicate of another context gives
  \<open>PredicateContextError\<close>; otherwise a violation gives \<open>ConstraintError\<close> for a bad
  constraint of \<open>ins\<close>, else \<open>ArityError\<close> for a wrong number of them, else
  \<open>ConstraintError\<close> for a bad constraint of \<open>outs\<close>.
\<close>

theorem recipe_constraints_checked:
  "(EncRecipe_init pc nm fmt sz i_arg o_arg br ip sp = Inr r \<longrightarrow>
      ins r = seq_items i_arg \<and> outs r = seq_items o_arg \<and> constraints_ok fmt (ins r) (outs r)) \<and>
   (\<not> constraints_ok fmt (seq_items i_arg) (seq_items o_arg) \<longrightarrow>
      (\<exists>e. EncRecipe_init pc nm fmt sz i_arg o_arg br ip sp = Inl e)) \<and>
   (\<not> constraints_ok fmt (seq_items i_arg) (seq_items o_arg) \<and> sz < 0 \<longrightarrow>
      EncRecipe_init pc nm fmt sz i_arg o_arg br ip sp = Inl SizeError) \<and>
   (\<not> constraints_ok fmt (seq_items i_arg) (seq_items o_arg) \<and> 0 \<le> sz \<and>
    (\<exists>p. ip = Some p \<and> pc p \<noteq> FormatContext fmt) \<longrightarrow>
      EncRecipe_init pc nm fmt sz i_arg o_arg br ip sp = Inl PredicateContextError) \<and>
   (0 \<le> sz \<and> (ip = None \<or> (\<exists>p. ip = Some p \<and> pc p = FormatContext fmt)) \<longrightarrow>
      (\<not> list_all (constraint_ok fmt) (seq_items i_arg) \<longrightarrow>
         EncRecipe_init pc nm fmt sz i_arg o_arg br ip sp = Inl ConstraintError) \<and>
      (list_all (constraint_ok fmt) (seq_items i_arg) \<and> \<not> has_value_list fmt \<and>
       int (length (seq_items i_arg)) \<noteq> num_value_operands fmt \<longrightarrow>
         EncRecipe_init pc nm fmt sz i_arg o_arg br ip sp = Inl ArityError) \<and>
      (list_all (constraint_ok fmt) (seq_items i_arg) \<and>
       (has_value_list fmt \<or> int (length (seq_items i_arg)) = num_value_operands fmt) \<and>
       \<not> list_all (constraint_ok fmt) (seq_items o_arg) \<longrightarrow>
         EncRecipe_init pc nm fmt sz i_arg o_arg br ip sp = Inl ConstraintError))"
  by (auto simp: EncRecipe_init_eq constraints_ok_def split: if_splits)

text \<open>
  The claim C7 as stated fails: with a negative size, a constraint that is neither an
  integer nor a register class nor a register makes the construction fail at the size
  check, with \<open>SizeError\<close> and neither \<open>ConstraintError\<close> nor \<open>ArityError\<close>.
\<close>

theorem recipe_constraints_checked_counterexample:
  "\<not> constraints_ok example_F (seq_items (Single COther)) (seq_items (Tuple [CInt 0])) \<and>
   EncRecipe_init example_context ''R1'' example_F (- 1) (Single COther) (Tuple [CInt 0]) None (Some 3) None
     = Inl SizeError \<and>
   EncRecipe_init example_context ''R1'' example_F (- 1) (Single COther) (Tuple [CInt 0]) None (Some 3) None
     \<noteq> Inl ConstraintError \<and>
   EncRecipe_init example_context ''R1'' example_F (- 1) (Single COther) (Tuple [CInt 0]) None (Some 3) None
     \<noteq> Inl ArityError"
  by (simp add: EncRecipe_init_eq constraints_ok_def)

theorem recipe_constraints_checked_witness:
  "EncRecipe_init example_context ''R1'' example_F 4 (Single (CRegClass 0)) (Tuple [CInt 0]) None (Some 3) None
     = Inr example_R1 \<and>
   constraints_ok example_F (ins example_R1) (outs example_R1) \<and>
   \<not> constraints_ok example_F (seq_items (Tuple [])) (seq_items (Tuple [CInt 1])) \<and>
   EncRecipe_init example_context ''R1'' example_F 4 (Tuple []) (Tuple [CInt 1]) None (Some 3) None
     = Inl ArityError \<and>
   EncRecipe_init example_context ''R1'' example_F 4 (Single COther) (Tuple [CInt 0]) None (Some 3) None
     = Inl ConstraintError \<and>
   EncRecipe_init example_context ''R1'' example_F 4 (Single (CRegClass 0)) (Tuple [CInt 1]) None (Some 3) None
     = Inl ConstraintError \<and>
   EncRecipe_init example_context ''R1'' example_F (- 1) (Tuple []) (Tuple [CInt 1]) None (Some 3) None
     = Inl SizeError \<and>
   EncRecipe_init example_context ''R1'' example_F 4 (Tuple []) (Tuple [CInt 1]) None (Some 12) None
     = Inl PredicateContextError"
proof -
  note ok = recipe_constraints_checked [of example_context "''R1''" example_F 4 "Single (CRegClass 0)"
      "Tuple [CInt 0]" None "Some 3" None example_R1]
  note arity = recipe_constraints_checked [of example_context "''R1''" example_F 4 "Tuple []"
      "Tuple [CInt 1]" None "Some 3" None example_R1]
  note bad_in = recipe_constraints_checked [of example_context "''R1''" example_F 4 "Single COther"
      "Tuple [CInt 0]" None "Some 3" None example_R1]
  note bad_out = recipe_constraints_checked [of example_context "''R1''" example_F 4 "Single (CRegClass 0)"
      "Tuple [CInt 1]" None "Some 3" None example_R1]
  note neg = recipe_constraints_checked [of example_context "''R1''" example_F "- 1" "Tuple []"
      "Tuple [CInt 1]" None "Some 3" None example_R1]
  note ctx = recipe_constraints_checked [of example_context "''R1''" example_F 4 "Tuple []"
      "Tuple [CInt 1]" None "Some 12" None example_R1]
  have c3: "example_context 3 = FormatContext example_F" and c12: "example_context 12 \<noteq> FormatContext example_F"
    by (simp_all add: example_context_def)
  have v: "\<not> constraints_ok example_F (seq_items (Tuple [])) (seq_items (Tuple [CInt 1]))"
    by (simp add: constraints_ok_def example_F_def)
  from ok example_R1_init have a: "constraints_ok example_F (ins example_R1) (outs example_R1)"
    by blast
  from arity c3 have b: "EncRecipe_init example_context ''R1'' example_F 4 (Tuple []) (Tuple [CInt 1])
      None (Some 3) None = Inl ArityError"
    by (simp add: example_F_def)
  from bad_in c3 have c: "EncRecipe_init example_context ''R1'' example_F 4 (Single COther) (Tuple [CInt 0])
      None (Some 3) None = Inl ConstraintError"
    by simp
  from bad_out c3 have d: "EncRecipe_init example_context ''R1'' example_F 4 (Single (CRegClass 0))
      (Tuple [CInt 1]) None (Some 3) None = Inl ConstraintError"
    by (simp add: example_F_def)
  from neg v have e: "EncRecipe_init example_context ''R1'' example_F (- 1) (Tuple []) (Tuple [CInt 1])
      None (Some 3) None = Inl SizeError"
    by simp
  from ctx v c12 have f: "EncRecipe_init example_context ''R1'' example_F 4 (Tuple []) (Tuple [CInt 1])
      None (Some 12) None = Inl PredicateContextError"
    by simp
  from example_R1_init a v b c d e f show ?thesis by simp
qed

section \<open>Encodings are validated\<close>

text \<open>
  Combining predicates allocates conjunction nodes and leaves the recipes alone, so
  \<open>Encoding.__init__\<close> is a chain of two checks on the recipe as it was.
\<close>

lemma And_combine_recipes: "recipes (snd (And_combine a b h)) = recipes h"
  by (simp add: And_combine_def Let_def split: option.splits)

lemma resolved_instp_recipes: "recipes (snd (resolved_instp inst_arg ip h)) = recipes h"
  by (cases inst_arg) (simp_all add: And_combine_recipes)

lemma Encoding_init_eq:
  "Encoding_init cm inst_arg rcp bits ip sp h =
     (if Instruction.format (spec_inst inst_arg) \<noteq> EncRecipe.format (recipes h rcp)
        then Inl FormatMismatchError
      else if is_branch (spec_inst inst_arg) \<and> \<not> truthy_range (branch_range (recipes h rcp))
        then Inl BranchRangeError
      else Inr (\<lparr>inst = spec_inst inst_arg, typevars = spec_typevars inst_arg, cpumode = cm,
                 recipe = rcp, encbits = bits,
                 instp = fst (And_combine (EncRecipe.instp (recipes h rcp))
                                (fst (resolved_instp inst_arg ip h)) (snd (resolved_instp inst_arg ip h))),
                 isap = fst (And_combine (EncRecipe.isap (recipes h rcp)) sp
                               (snd (And_combine (EncRecipe.instp (recipes h rcp))
                                      (fst (resolved_instp inst_arg ip h))
                                      (snd (resolved_instp inst_arg ip h)))))\<rparr>,
               snd (And_combine (EncRecipe.isap (recipes h rcp)) sp
                      (snd (And_combine (EncRecipe.instp (recipes h rcp))
                             (fst (resolved_instp inst_arg ip h))
                             (snd (resolved_instp inst_arg ip h)))))))"
  by (cases inst_arg) (simp_all add: Encoding_init_def Let_def split_beta And_combine_recipes)

text \<open>
  Claim C6, as amended. The format is compared before the branch range is looked at.
  Constructing an encoding for a branch instruction with a recipe of the same format
  that has no branch range fails with \<open>BranchRangeError\<close>; with a recipe of another
  format the construction fails too, with \<open>FormatMismatchError\<close>. An encoding of a branch
  instruction that was constructed has a recipe with a branch range, and a non-empty one.
\<close>

theorem encoding_branch_range:
  "(Instruction.format (spec_inst inst_arg) = EncRecipe.format (recipes h rcp) \<and>
    is_branch (spec_inst inst_arg) \<and> branch_range (recipes h rcp) = None \<longrightarrow>
      Encoding_init cm inst_arg rcp bits ip sp h = Inl BranchRangeError) \<and>
   (Instruction.format (spec_inst inst_arg) \<noteq> EncRecipe.format (recipes h rcp) \<and>
    is_branch (spec_inst inst_arg) \<and> branch_range (recipes h rcp) = None \<longrightarrow>
      Encoding_init cm inst_arg rcp bits ip sp h = Inl FormatMismatchError) \<and>
   (Encoding_init cm inst_arg rcp bits ip sp h = Inr (e, h') \<and> is_branch (inst e) \<longrightarrow>
      (\<exists>xs. branch_range (recipes h' (recipe e)) = Some xs \<and> xs \<noteq> []))"
  by (cases "branch_range (recipes h rcp)")
     (auto simp: Encoding_init_eq And_combine_recipes resolved_instp_recipes split: if_splits)

text \<open>
  The claim C6 as stated fails: a branch instruction and a recipe without a branch range,
  of another format, give \<open>FormatMismatchError\<close> and not \<open>BranchRangeError\<close>.
\<close>

theorem encoding_branch_range_counterexample:
  "is_branch (spec_inst (Bound example_jump [])) \<and>
   branch_range (recipes example_heap 1) = None \<and>
   Encoding_init 0 (Bound example_jump []) 1 0 None None example_heap = Inl FormatMismatchError \<and>
   Encoding_init 0 (Bound example_jump []) 1 0 None None example_heap \<noteq> Inl BranchRangeError"
  by (simp add: Encoding_init_eq example_heap_def example_jump_def example_R1_def example_F_def example_J_def)

theorem encoding_branch_range_witness:
  "Instruction.format (spec_inst (Bound example_jump [])) = EncRecipe.format (recipes example_heap 4) \<and>
   is_branch (spec_inst (Bound example_jump [])) \<and>
   branch_range (recipes example_heap 4) = None \<and>
   Encoding_init 0 (Bound example_jump []) 4 0 None None example_heap = Inl BranchRangeError \<and>
   Instruction.format (spec_inst (Bound example_jump [])) \<noteq> EncRecipe.format (recipes example_heap 1) \<and>
   Encoding_init 0 (Bound example_jump []) 1 0 None None example_heap = Inl FormatMismatchError \<and>
   isl (Encoding_init 0 (Bound example_jump []) 3 0 None None example_heap) = False \<and>
   is_branch (inst (fst (projr (Encoding_init 0 (Bound example_jump []) 3 0 None None example_heap)))) \<and>
   branch_range (recipes (snd (projr (Encoding_init 0 (Bound example_jump []) 3 0 None None example_heap))) 3)
     = Some [0, 8]"
  using encoding_branch_range [of "Bound example_jump []" example_heap 4 0 0 None None
          "fst (projr (Encoding_init 0 (Bound example_jump []) 3 0 None None example_heap))"
          "snd (projr (Encoding_init 0 (Bound example_jump []) 3 0 None None example_heap))"]
        encoding_branch_range [of "Bound example_jump []" example_heap 3 0 0 None None
          "fst (projr (Encoding_init 0 (Bound example_jump []) 3 0 None None example_heap))"
          "snd (projr (Encoding_init 0 (Bound example_jump []) 3 0 None None example_heap))"]
        encoding_branch_range [of "Bound example_jump []" example_heap 1 0 0 None None
          "fst (projr (Encoding_init 0 (Bound example_jump []) 3 0 None None example_heap))"
          "snd (projr (Encoding_init 0 (Bound example_jump []) 3 0 None None example_heap))"]
  by (simp add: Encoding_init_eq example_heap_def example_jump_def example_RJ_def example_RN_def
        example_R1_def example_F_def example_J_def And_combine_def)

text \<open>
  Claim C8 (\<open>And.combine\<close> is modelled from the spec). The instruction predicate of an
  encoding is the combination of the recipe's with \<open>p\<close>, where \<open>p\<close> is the caller's
  predicate for a bound instruction and the combination of the caller's with the one of
  the operands for an applied form; its ISA predicate is the combination of the recipe's
  with the caller's. Combining with an absent predicate gives the other one unchanged.
\<close>

theorem encoding_predicates:
  "(Encoding_init cm inst_arg rcp bits ip sp h = Inr (e, h') \<longrightarrow>
      (\<exists>p h1 h2.
         (p, h1) = (case inst_arg of
                      Bound bi btvs \<Rightarrow> (ip, h)
                    | Apply ai atvs ap \<Rightarrow> And_combine ip ap h) \<and>
         And_combine (EncRecipe.instp (recipes h rcp)) p h1 = (Encoding.instp e, h2) \<and>
         And_combine (EncRecipe.isap (recipes h rcp)) sp h2 = (Encoding.isap e, h'))) \<and>
   And_combine None b h = (b, h) \<and>
   And_combine a None h = (a, h)"
proof -
  have "\<exists>p h1 h2.
         (p, h1) = (case inst_arg of
                      Bound bi btvs \<Rightarrow> (ip, h)
                    | Apply ai atvs ap \<Rightarrow> And_combine ip ap h) \<and>
         And_combine (EncRecipe.instp (recipes h rcp)) p h1 = (Encoding.instp e, h2) \<and>
         And_combine (EncRecipe.isap (recipes h rcp)) sp h2 = (Encoding.isap e, h')"
    if ok: "Encoding_init cm inst_arg rcp bits ip sp h = Inr (e, h')"
  proof -
    obtain p h1 where a: "resolved_instp inst_arg ip h = (p, h1)"
      by (cases "resolved_instp inst_arg ip h")
    obtain p2 h2 where b: "And_combine (EncRecipe.instp (recipes h rcp)) p h1 = (p2, h2)"
      by (cases "And_combine (EncRecipe.instp (recipes h rcp)) p h1")
    obtain p3 h3 where c: "And_combine (EncRecipe.isap (recipes h rcp)) sp h2 = (p3, h3)"
      by (cases "And_combine (EncRecipe.isap (recipes h rcp)) sp h2")
    from ok a b c have "Encoding.instp e = p2" "Encoding.isap e = p3" "h' = h3"
      by (auto simp: Encoding_init_eq split: if_splits)
    moreover have "(p, h1) = (case inst_arg of
                      Bound bi btvs \<Rightarrow> (ip, h)
                    | Apply ai atvs ap \<Rightarrow> And_combine ip ap h)"
      using a by (cases inst_arg) simp_all
    ultimately show ?thesis using b c by blast
  qed
  moreover have "And_combine None b h = (b, h)" "And_combine a None h = (a, h)"
    by (simp_all add: And_combine_def split: option.splits)
  ultimately show ?thesis by blast
qed

lemma example_applied_init:
  "Encoding_init 1 (Apply example_add [''i32''] (Some 6)) 1 16 (Some 5) (Some 11) example_heap =
     Inr (example_applied, example_heap_applied)"
  by (simp add: Encoding_init_eq example_heap_def example_add_def example_R1_def example_enc_def
        And_combine_def example_applied_def example_heap_applied_def fun_eq_iff)

theorem encoding_predicates_witness:
  "Encoding_init 1 (Apply example_add [''i32''] (Some 6)) 1 16 (Some 5) (Some 11) example_heap =
     Inr (example_applied, example_heap_applied) \<and>
   EncRecipe.instp (recipes example_heap 1) = Some 3 \<and>
   EncRecipe.isap (recipes example_heap 1) = None \<and>
   Encoding.instp example_applied = Some 21 \<and>
   pred_parts example_heap_applied 21 = [3, 20] \<and>
   pred_parts example_heap_applied 20 = [5, 6] \<and>
   Encoding.isap example_applied = Some 11"
  using encoding_predicates [where inst_arg = "Apply example_add [''i32''] (Some 6)" and h = example_heap
      and rcp = 1 and cm = 1 and bits = 16 and ip = "Some 5" and sp = "Some 11"
      and e = example_applied and h' = example_heap_applied and a = None and b = None]
    example_applied_init
  by (simp add: example_applied_def example_heap_applied_def example_enc_def example_heap_def example_R1_def)

section \<open>The collecting loops\<close>

text \<open>
  Each collecting loop appends the first occurrences of what it scans and numbers them
  in that order.
\<close>

lemma first_occurrences_set: "set (first_occurrences xs) = set xs"
proof (induction xs rule: first_occurrences.induct)
  case 1
  show ?case by simp
next
  case (2 x xs)
  then show ?case by auto
qed

lemma first_occurrences_distinct: "distinct (first_occurrences xs)"
proof (induction xs rule: first_occurrences.induct)
  case 1
  show ?case by simp
next
  case (2 x xs)
  then show ?case by (simp add: first_occurrences_set)
qed

lemma count_list_distinct:
  "distinct xs \<Longrightarrow> count_list xs x = (if x \<in> set xs then 1 else 0)"
  by (induction xs) auto

lemma collect_new_fold:
  "distinct acc \<Longrightarrow>
   fold (collect_new upd) xs (acc, set acc, h) =
     (acc @ first_occurrences (filter (\<lambda>x. x \<notin> set acc) xs),
      set acc \<union> set xs,
      assign_numbers upd (length acc) (first_occurrences (filter (\<lambda>x. x \<notin> set acc) xs)) h)"
proof (induction xs arbitrary: acc h)
  case Nil
  show ?case by (simp add: assign_numbers_def)
next
  case (Cons x xs)
  show ?case
  proof (cases "x \<in> set acc")
    case True
    then have "fold (collect_new upd) (x # xs) (acc, set acc, h) = fold (collect_new upd) xs (acc, set acc, h)"
      by (simp add: collect_new_def)
    with True Cons show ?thesis by (simp add: insert_absorb)
  next
    case False
    have f: "filter (\<lambda>y. y \<noteq> x) (filter (\<lambda>y. y \<notin> set acc) xs) = filter (\<lambda>y. y \<notin> set (acc @ [x])) xs"
      by (induction xs) auto
    have d: "distinct (acc @ [x])" using False Cons.prems by simp
    have c: "card (set acc) = length acc" using Cons.prems by (simp add: distinct_card)
    have "fold (collect_new upd) (x # xs) (acc, set acc, h) =
          fold (collect_new upd) xs (acc @ [x], set (acc @ [x]), upd x (length acc) h)"
      using False c by (simp add: collect_new_def)
    also have "\<dots> = ((acc @ [x]) @ first_occurrences (filter (\<lambda>y. y \<notin> set (acc @ [x])) xs),
      set (acc @ [x]) \<union> set xs,
      assign_numbers upd (length (acc @ [x])) (first_occurrences (filter (\<lambda>y. y \<notin> set (acc @ [x])) xs)) (upd x (length acc) h))"
      by (rule Cons.IH [OF d])
    finally show ?thesis using False f by (simp add: assign_numbers_def)
  qed
qed

lemma collect_new_scan:
  "fold (collect_new upd) xs ([], {}, h) =
     (first_occurrences xs, set xs, assign_numbers upd 0 (first_occurrences xs) h)"
  using collect_new_fold [of "[]" upd xs h] by simp

lemma fold_modes: "fold (\<lambda>m. fold f (encodings m)) ms st = fold f (concat (map encodings ms)) st"
  by (induction ms arbitrary: st) simp_all

lemma collect_recipe_new: "collect_recipe e = collect_new set_recipe_number (recipe e)"
  by (simp add: collect_recipe_def collect_new_def Let_def fun_eq_iff)

lemma fold_collect_recipe:
  "fold collect_recipe es st = fold (collect_new set_recipe_number) (map recipe es) st"
  by (induction es arbitrary: st) (simp_all add: collect_recipe_new)

lemma collect_encoding_recipes_eq:
  "collect_encoding_recipes self h =
     (self\<lparr>all_recipes := Some (first_occurrences (scan_recipes self))\<rparr>,
      assign_numbers set_recipe_number 0 (first_occurrences (scan_recipes self)) h)"
  by (simp add: collect_encoding_recipes_def fold_modes fold_collect_recipe collect_new_scan
        scan_recipes_def scan_def)

lemma collect_instp_new:
  "collect_instp e st = fold (collect_new set_pred_number) (case Encoding.instp e of None \<Rightarrow> [] | Some p \<Rightarrow> [p]) st"
  by (cases st) (simp add: collect_instp_def collect_new_def set_pred_number_def split: option.splits)

lemma fold_collect_instp:
  "fold collect_instp es st = fold (collect_new set_pred_number) (present Encoding.instp es) st"
  by (induction es arbitrary: st) (simp_all add: collect_instp_new present_def)

lemma collect_predicates_encodings_eq:
  "collect_predicates_encodings np es (ps, s) =
     (if s = None \<and> present Encoding.isap es \<noteq> [] then Inl AttributeError
      else Inr (fold collect_instp es ps, map_option (fold (\<lambda>q g. np g q) (present Encoding.isap es)) s))"
proof (induction es arbitrary: ps s)
  case Nil
  show ?case by (simp add: present_def option.map_id0)
next
  case (Cons e es)
  show ?case
  proof (cases "Encoding.isap e")
    case None
    then show ?thesis using Cons [of "collect_instp e ps" s]
      by (simp add: number_isap_def present_def Let_def)
  next
    case (Some q)
    show ?thesis
    proof (cases s)
      case None
      with Some show ?thesis by (simp add: number_isap_def present_def Let_def)
    next
      case g: (Some g)
      with Some show ?thesis using Cons [of "collect_instp e ps" "Some (np g q)"]
        by (simp add: number_isap_def present_def Let_def)
    qed
  qed
qed

lemma collect_predicates_modes_eq:
  "collect_predicates_modes np ms (ps, s) =
     collect_predicates_encodings np (concat (map encodings ms)) (ps, s)"
proof (induction ms arbitrary: ps s)
  case Nil
  show ?case by simp
next
  case (Cons m ms)
  have app: "present Encoding.isap (encodings m @ concat (map encodings ms)) =
        present Encoding.isap (encodings m) @ present Encoding.isap (concat (map encodings ms))"
    by (simp add: present_def)
  show ?case
    by (cases s) (simp_all add: collect_predicates_encodings_eq Cons app)
qed

lemma collect_predicates_eq:
  "collect_predicates np self h =
     (if settings self = None \<and> scan_isaps self \<noteq> [] then Inl AttributeError
      else Inr (self\<lparr>settings := map_option (fold (\<lambda>q g. np g q) (scan_isaps self)) (settings self),
                      all_instps := Some (first_occurrences (scan_instps self))\<rparr>,
                assign_numbers set_pred_number 0 (first_occurrences (scan_instps self)) h))"
  by (simp add: collect_predicates_def collect_predicates_modes_eq collect_predicates_encodings_eq
        fold_collect_instp collect_new_scan scan_isaps_def scan_instps_def scan_def present_def)

lemma assign_numbers_append:
  "assign_numbers upd k (xs @ ys) h = assign_numbers upd (k + length xs) ys (assign_numbers upd k xs h)"
  by (simp add: assign_numbers_def enumerate_append_eq)

lemma finish_regclasses_eq:
  "finish_regclasses bank i h = assign_numbers set_rc_index i (classes bank) h"
proof -
  have "fold (\<lambda>(idx, rc) h'. h'\<lparr>rc_index := (rc_index h')(rc := Some (idx + i))\<rparr>) (enumerate k cs) h =
        fold (\<lambda>(j, rc). set_rc_index rc j) (enumerate (k + i) cs) h" for k cs
    by (induction cs arbitrary: k h) (simp_all add: set_rc_index_def)
  from this [of 0] show ?thesis by (simp add: finish_regclasses_def assign_numbers_def)
qed

lemma collect_regclasses_loop_eq:
  "collect_regclasses_loop banks i h = assign_numbers set_rc_index i (concat (map classes banks)) h"
proof (induction banks arbitrary: i h)
  case Nil
  show ?case by (simp add: assign_numbers_def)
next
  case (Cons b bs)
  show ?case by (simp add: Cons finish_regclasses_eq assign_numbers_append)
qed

lemma finish_eq:
  "finish np self h =
     (if settings self = None \<and> scan_isaps self \<noteq> [] then Inl AttributeError
      else Inr (self\<lparr>settings := map_option (fold (\<lambda>q g. np g q) (scan_isaps self)) (settings self),
                      all_recipes := Some (first_occurrences (scan_recipes self)),
                      all_instps := Some (first_occurrences (scan_instps self))\<rparr>,
                assign_numbers set_rc_index 0 (all_classes self)
                  (assign_numbers set_pred_number 0 (first_occurrences (scan_instps self))
                    (assign_numbers set_recipe_number 0 (first_occurrences (scan_recipes self)) h))))"
  by (simp add: finish_def collect_encoding_recipes_eq collect_predicates_eq collect_regclasses_def
        collect_regclasses_loop_eq all_classes_def scan_isaps_def scan_instps_def scan_recipes_def scan_def)

lemma finish_Inr:
  assumes "finish np self h = Inr (self', h')"
  shows "self' = self\<lparr>settings := map_option (fold (\<lambda>q g. np g q) (scan_isaps self)) (settings self),
                      all_recipes := Some (first_occurrences (scan_recipes self)),
                      all_instps := Some (first_occurrences (scan_instps self))\<rparr>"
    and "h' = assign_numbers set_rc_index 0 (all_classes self)
                  (assign_numbers set_pred_number 0 (first_occurrences (scan_instps self))
                    (assign_numbers set_recipe_number 0 (first_occurrences (scan_recipes self)) h))"
  using assms by (simp_all add: finish_eq split: if_splits)

lemma finish_scans:
  assumes "finish np self h = Inr (self', h')"
  shows "scan self' = scan self" "scan_recipes self' = scan_recipes self"
    "scan_instps self' = scan_instps self" "scan_isaps self' = scan_isaps self"
    "all_classes self' = all_classes self"
  using finish_Inr(1) [OF assms]
  by (simp_all add: scan_def scan_recipes_def scan_instps_def scan_isaps_def all_classes_def)

section \<open>Numbering a list\<close>

text \<open>
  What a numbering leaves in the heap, for any field that it sets at the element and
  leaves alone elsewhere.
\<close>

lemma assign_numbers_Cons:
  "assign_numbers upd k (x # xs) h = assign_numbers upd (Suc k) xs (upd x k h)"
  by (simp add: assign_numbers_def)

lemma assign_numbers_frame:
  assumes "\<And>x n h. f (upd x n h) = f h"
  shows "f (assign_numbers upd k xs h) = f h"
  by (induction xs arbitrary: k h) (simp_all add: assign_numbers_Cons assms, simp add: assign_numbers_def)

lemma assign_numbers_other:
  assumes "\<And>x n h. y \<noteq> x \<Longrightarrow> get (upd x n h) y = get h y"
    and "y \<notin> set xs"
  shows "get (assign_numbers upd k xs h) y = get h y"
  using assms(2)
proof (induction xs arbitrary: k h)
  case Nil
  show ?case by (simp add: assign_numbers_def)
next
  case (Cons x xs)
  then show ?case by (simp add: assign_numbers_Cons assms(1))
qed

lemma assign_numbers_nth:
  assumes upd: "\<And>x n h y. get (upd x n h) y = (if y = x then put n (get h y) else get h y)"
    and "distinct xs" and "i < length xs"
  shows "get (assign_numbers upd k xs h) (xs ! i) = put (k + i) (get h (xs ! i))"
  using assms(2,3)
proof (induction xs arbitrary: k h i)
  case Nil
  then show ?case by simp
next
  case (Cons x xs)
  show ?case
  proof (cases i)
    case 0
    have "get (assign_numbers upd (Suc k) xs (upd x k h)) x = get (upd x k h) x"
      using Cons.prems(1) by (intro assign_numbers_other) (simp_all add: upd)
    with 0 show ?thesis by (simp add: assign_numbers_Cons upd)
  next
    case (Suc j)
    with Cons.prems have j: "j < length xs" and d: "distinct xs" and ne: "xs ! j \<noteq> x"
      by auto
    from Cons.IH [OF d j, of "Suc k" "upd x k h"] ne Suc show ?thesis
      by (simp add: assign_numbers_Cons upd)
  qed
qed


lemma nth_eq_map_upt:
  assumes "\<And>i. i < length xs \<Longrightarrow> f (xs ! i) = g (k + i)"
  shows "map f xs = map g [k..<k + length xs]"
  using assms by (intro nth_equalityI) simp_all

lemma recipes_upd:
  "recipes (set_recipe_number x n h) y =
     (if y = x then (\<lambda>rc. rc\<lparr>number := Some n\<rparr>) (recipes h y) else recipes h y)"
  by (simp add: set_recipe_number_def)

lemma numbered_recipes:
  assumes "distinct rs"
  shows "map (\<lambda>r. number (recipes (assign_numbers set_recipe_number k rs h) r)) rs =
         map Some [k..<k + length rs]"
proof (rule nth_eq_map_upt)
  fix i assume "i < length rs"
  from assign_numbers_nth [of recipes set_recipe_number "\<lambda>n rc. rc\<lparr>number := Some n\<rparr>", OF recipes_upd assms this]
  show "number (recipes (assign_numbers set_recipe_number k rs h) (rs ! i)) = Some (k + i)"
    by simp
qed

lemma other_recipes:
  "r \<notin> set rs \<Longrightarrow> recipes (assign_numbers set_recipe_number k rs h) r = recipes h r"
  by (rule assign_numbers_other) (simp_all add: recipes_upd)

lemma recipes_but_number:
  "(\<lambda>r. (recipes (assign_numbers set_recipe_number k rs h) r)\<lparr>number := None\<rparr>) =
   (\<lambda>r. (recipes h r)\<lparr>number := None\<rparr>)"
  by (rule assign_numbers_frame) (simp add: set_recipe_number_def fun_eq_iff)

lemma pred_number_upd:
  "pred_number (set_pred_number x n h) y =
     (if y = x then (\<lambda>n v. Some n) n (pred_number h y) else pred_number h y)"
  by (simp add: set_pred_number_def)

lemma numbered_preds:
  assumes "distinct ps"
  shows "map (pred_number (assign_numbers set_pred_number k ps h)) ps = map Some [k..<k + length ps]"
proof (rule nth_eq_map_upt)
  fix i assume "i < length ps"
  from assign_numbers_nth [of pred_number set_pred_number "\<lambda>n v. Some n", OF pred_number_upd assms this]
  show "pred_number (assign_numbers set_pred_number k ps h) (ps ! i) = Some (k + i)"
    by simp
qed

lemma other_preds:
  "p \<notin> set ps \<Longrightarrow> pred_number (assign_numbers set_pred_number k ps h) p = pred_number h p"
  by (rule assign_numbers_other) (simp_all add: pred_number_upd)

lemma rc_index_upd:
  "rc_index (set_rc_index x n h) y =
     (if y = x then (\<lambda>n v. Some n) n (rc_index h y) else rc_index h y)"
  by (simp add: set_rc_index_def)

lemma numbered_classes:
  assumes "distinct cs"
  shows "map (rc_index (assign_numbers set_rc_index k cs h)) cs = map Some [k..<k + length cs]"
proof (rule nth_eq_map_upt)
  fix i assume "i < length cs"
  from assign_numbers_nth [of rc_index set_rc_index "\<lambda>n v. Some n", OF rc_index_upd assms this]
  show "rc_index (assign_numbers set_rc_index k cs h) (cs ! i) = Some (k + i)"
    by simp
qed

lemma other_classes:
  "c \<notin> set cs \<Longrightarrow> rc_index (assign_numbers set_rc_index k cs h) c = rc_index h c"
  by (rule assign_numbers_other) (simp_all add: rc_index_upd)

lemma recipe_numbering_frame:
  "pred_number (assign_numbers set_recipe_number k rs h) = pred_number h"
  "pred_parts (assign_numbers set_recipe_number k rs h) = pred_parts h"
  "pred_fresh (assign_numbers set_recipe_number k rs h) = pred_fresh h"
  "rc_index (assign_numbers set_recipe_number k rs h) = rc_index h"
  by (rule assign_numbers_frame, simp add: set_recipe_number_def)+

lemma pred_numbering_frame:
  "recipes (assign_numbers set_pred_number k ps h) = recipes h"
  "pred_parts (assign_numbers set_pred_number k ps h) = pred_parts h"
  "pred_fresh (assign_numbers set_pred_number k ps h) = pred_fresh h"
  "rc_index (assign_numbers set_pred_number k ps h) = rc_index h"
  by (rule assign_numbers_frame, simp add: set_pred_number_def)+

lemma class_numbering_frame:
  "recipes (assign_numbers set_rc_index k cs h) = recipes h"
  "pred_number (assign_numbers set_rc_index k cs h) = pred_number h"
  "pred_parts (assign_numbers set_rc_index k cs h) = pred_parts h"
  "pred_fresh (assign_numbers set_rc_index k cs h) = pred_fresh h"
  by (rule assign_numbers_frame, simp add: set_rc_index_def)+

section \<open>The example, finished\<close>

text \<open>
  \<open>finish\<close> on the example ISA, and once more on its result.
\<close>

lemma example_scans:
  "scan_recipes example_isa = [1, 2, 1, 3, 2]"
  "scan_instps example_isa = [3, 3, 5, 5]"
  "scan_isaps example_isa = [11, 11]"
  "all_classes example_isa = [0, 1, 2, 3, 4]"
  by (simp_all add: scan_recipes_def scan_instps_def scan_isaps_def all_classes_def scan_def
        example_isa_def example_M1_def example_M2_def example_enc_def)

lemma example_finish: "finish example_np example_isa example_heap = Inr (example_isa', example_heap')"
proof -
  have s: "settings example_isa = Some []" by (simp add: example_isa_def)
  have "assign_numbers set_rc_index 0 [0, 1, 2, 3, 4]
          (assign_numbers set_pred_number 0 [3, 5]
            (assign_numbers set_recipe_number 0 [1, 2, 3] example_heap)) = example_heap'"
    by (simp add: assign_numbers_def set_rc_index_def set_pred_number_def set_recipe_number_def
          example_heap_def example_heap'_def fun_eq_iff)
  then show ?thesis
    by (simp add: finish_eq example_scans s example_isa'_def example_np_def)
qed


lemma example_encoding:
  "Encoding_init 0 (Bound example_add [''i32'']) 1 16 None None example_heap =
     Inr (example_enc example_add 0 1 16 (Some 3) None, example_heap)"
  by (simp add: Encoding_init_eq example_heap_def example_add_def example_R1_def example_enc_def
        And_combine_def)

section \<open>Recipes and predicates after finish\<close>

text \<open>
  Claim C1. After \<open>finish\<close>, \<open>all_recipes\<close> is the list of the recipes of the encodings
  in scan order (the CPU modes in their order, the encodings of each mode in theirs),
  reduced to first occurrences. A recipe that some encoding refers to is in it exactly
  once, however many encodings of however many modes share it, and a recipe that no
  encoding refers to is not in it. The recipe at position \<open>i\<close> has the number \<open>i\<close>, so the
  numbers are \<open>0, \<dots>, k - 1\<close>; the object of a recipe that no encoding refers to, its
  number included, is as it was.
\<close>

theorem recipes_collected:
  assumes "finish np self h = Inr (self', h')"
  shows "all_recipes self' = Some (first_occurrences (scan_recipes self)) \<and>
         (\<forall>r. count_list (first_occurrences (scan_recipes self)) r =
                (if r \<in> set (scan_recipes self) then 1 else 0)) \<and>
         map (\<lambda>r. number (recipes h' r)) (first_occurrences (scan_recipes self)) =
           map Some [0..<length (first_occurrences (scan_recipes self))] \<and>
         (\<forall>r. r \<notin> set (scan_recipes self) \<longrightarrow> recipes h' r = recipes h r)"
proof -
  let ?rs = "first_occurrences (scan_recipes self)"
  have d: "distinct ?rs" by (rule first_occurrences_distinct)
  have "all_recipes self' = Some ?rs"
    using finish_Inr(1) [OF assms] by simp
  moreover have "\<forall>r. count_list ?rs r = (if r \<in> set (scan_recipes self) then 1 else 0)"
    using d by (simp add: count_list_distinct first_occurrences_set)
  moreover have "recipes h' = recipes (assign_numbers set_recipe_number 0 ?rs h)"
    using finish_Inr(2) [OF assms] by (simp add: class_numbering_frame pred_numbering_frame)
  ultimately show ?thesis
    using numbered_recipes [OF d, of 0 h] other_recipes [of _ ?rs 0 h]
    by (simp add: first_occurrences_set)
qed

theorem recipes_collected_witness:
  "finish example_np example_isa example_heap = Inr (example_isa', example_heap') \<and>
   scan_recipes example_isa = [1, 2, 1, 3, 2] \<and>
   all_recipes example_isa' = Some [1, 2, 3] \<and>
   map (\<lambda>r. number (recipes example_heap' r)) [1, 2, 3] = [Some 0, Some 1, Some 2] \<and>
   4 \<notin> set (scan_recipes example_isa) \<and>
   recipes example_heap' 4 = recipes example_heap 4"
  using recipes_collected [OF example_finish] example_finish
  by (simp add: example_scans example_isa'_def example_heap'_def example_heap_def)

text \<open>
  Claim C2. After \<open>finish\<close>, \<open>all_instps\<close> is the list of the instruction predicates of
  the encodings in scan order, reduced to first occurrences; an encoding without an
  instruction predicate adds nothing. A predicate that some encoding carries is in it
  exactly once. The predicate at position \<open>i\<close> has the number \<open>i\<close>, counted from 0 on
  its own, and the number of a predicate that no encoding carries is as it was.
\<close>

theorem predicates_collected:
  assumes "finish np self h = Inr (self', h')"
  shows "all_instps self' = Some (first_occurrences (scan_instps self)) \<and>
         (\<forall>p. count_list (first_occurrences (scan_instps self)) p =
                (if p \<in> set (scan_instps self) then 1 else 0)) \<and>
         map (pred_number h') (first_occurrences (scan_instps self)) =
           map Some [0..<length (first_occurrences (scan_instps self))] \<and>
         (\<forall>p. p \<notin> set (scan_instps self) \<longrightarrow> pred_number h' p = pred_number h p)"
proof -
  let ?ps = "first_occurrences (scan_instps self)"
  let ?h1 = "assign_numbers set_recipe_number 0 (first_occurrences (scan_recipes self)) h"
  have d: "distinct ?ps" by (rule first_occurrences_distinct)
  have "all_instps self' = Some ?ps"
    using finish_Inr(1) [OF assms] by simp
  moreover have "\<forall>p. count_list ?ps p = (if p \<in> set (scan_instps self) then 1 else 0)"
    using d by (simp add: count_list_distinct first_occurrences_set)
  moreover have "pred_number h' = pred_number (assign_numbers set_pred_number 0 ?ps ?h1)"
    using finish_Inr(2) [OF assms] by (simp add: class_numbering_frame)
  ultimately show ?thesis
    using numbered_preds [OF d, of 0 ?h1] other_preds [of _ ?ps 0 ?h1]
    by (simp add: first_occurrences_set recipe_numbering_frame)
qed

theorem predicates_collected_witness:
  "finish example_np example_isa example_heap = Inr (example_isa', example_heap') \<and>
   scan_instps example_isa = [3, 3, 5, 5] \<and>
   all_instps example_isa' = Some [3, 5] \<and>
   map (pred_number example_heap') [3, 5] = [Some 0, Some 1] \<and>
   4 \<notin> set (scan_instps example_isa) \<and>
   pred_number example_heap' 4 = pred_number example_heap 4"
  using predicates_collected [OF example_finish] example_finish
  by (simp add: example_scans example_isa'_def example_heap'_def example_heap_def)

section \<open>Register classes after finish\<close>

lemma first_index_0: "first_index self 0 = 0"
  by (simp add: first_index_def)

lemma first_index_Suc:
  "k < length (regbanks self) \<Longrightarrow>
   first_index self (Suc k) = first_index self k + length (classes (regbanks self ! k))"
  by (simp add: first_index_def take_Suc_conv_app_nth)

lemma first_index_mono: "j \<le> k \<Longrightarrow> first_index self j \<le> first_index self k"
proof -
  assume "j \<le> k"
  then obtain d where k: "k = j + d" by (auto simp: le_iff_add)
  show ?thesis unfolding k first_index_def by (simp add: take_add)
qed

lemma all_classes_split:
  assumes "k < length (regbanks self)"
  shows "all_classes self =
           concat (map classes (take k (regbanks self))) @ classes (regbanks self ! k) @
           concat (map classes (drop (Suc k) (regbanks self)))"
proof -
  have "regbanks self = take k (regbanks self) @ regbanks self ! k # drop (Suc k) (regbanks self)"
    using assms by (rule id_take_nth_drop)
  then have "concat (map classes (regbanks self)) =
      concat (map classes (take k (regbanks self) @ regbanks self ! k # drop (Suc k) (regbanks self)))"
    by simp
  then show ?thesis by (simp add: all_classes_def)
qed

lemma bank_block:
  assumes d: "distinct (all_classes self)" and k: "k < length (regbanks self)"
  shows "map (rc_index (assign_numbers set_rc_index 0 (all_classes self) h)) (classes (regbanks self ! k)) =
         map Some [first_index self k..<first_index self k + length (classes (regbanks self ! k))]"
proof -
  let ?pre = "concat (map classes (take k (regbanks self)))"
  let ?cs = "classes (regbanks self ! k)"
  let ?post = "concat (map classes (drop (Suc k) (regbanks self)))"
  let ?h1 = "assign_numbers set_rc_index 0 ?pre h"
  let ?h2 = "assign_numbers set_rc_index (length ?pre) ?cs ?h1"
  have split: "all_classes self = ?pre @ ?cs @ ?post" by (rule all_classes_split [OF k])
  have dcs: "distinct ?cs" and disj: "set ?cs \<inter> set ?post = {}"
    using d unfolding split by auto
  have "assign_numbers set_rc_index 0 (all_classes self) h =
        assign_numbers set_rc_index (length ?pre + length ?cs) ?post ?h2"
    unfolding split by (simp add: assign_numbers_append)
  moreover have "rc_index (assign_numbers set_rc_index (length ?pre + length ?cs) ?post ?h2) c = rc_index ?h2 c"
    if "c \<in> set ?cs" for c
    using that disj by (intro other_classes) auto
  ultimately have "map (rc_index (assign_numbers set_rc_index 0 (all_classes self) h)) ?cs =
        map (rc_index ?h2) ?cs"
    by simp
  also have "\<dots> = map Some [length ?pre..<length ?pre + length ?cs]"
    by (rule numbered_classes [OF dcs])
  finally show ?thesis by (simp add: first_index_def)
qed

text \<open>
  Claim C3 (\<open>finish_regclasses\<close> is modelled from the spec). Each register class
  is owned by one bank, so the classes of all banks are distinct. Then, after \<open>finish\<close>,
  the classes read in the order of the banks have the indices \<open>0, 1, 2, \<dots>\<close>; the
  bank at position \<open>k\<close> has the block that starts at \<open>first_index self k\<close>, which is 0
  for the first bank and grows by the number of classes of each bank; no two classes
  have the same index; and a class of an earlier bank has a lower index than a class of
  a later one.
\<close>

theorem regclasses_numbered:
  assumes "finish np self h = Inr (self', h')" and "distinct (all_classes self)"
  shows "map (rc_index h') (all_classes self) = map Some [0..<length (all_classes self)] \<and>
         first_index self 0 = 0 \<and>
         (\<forall>k. k < length (regbanks self) \<longrightarrow>
            map (rc_index h') (classes (regbanks self ! k)) =
              map Some [first_index self k..<first_index self k + length (classes (regbanks self ! k))] \<and>
            first_index self (Suc k) = first_index self k + length (classes (regbanks self ! k))) \<and>
         inj_on (rc_index h') (set (all_classes self)) \<and>
         (\<forall>j k c d. j < k \<and> k < length (regbanks self) \<and>
            c \<in> set (classes (regbanks self ! j)) \<and> d \<in> set (classes (regbanks self ! k)) \<longrightarrow>
            (\<exists>m n. rc_index h' c = Some m \<and> rc_index h' d = Some n \<and> m < n))"
proof -
  let ?h2 = "assign_numbers set_pred_number 0 (first_occurrences (scan_instps self))
              (assign_numbers set_recipe_number 0 (first_occurrences (scan_recipes self)) h)"
  have h': "h' = assign_numbers set_rc_index 0 (all_classes self) ?h2"
    by (rule finish_Inr(2) [OF assms(1)])
  have all: "map (rc_index h') (all_classes self) = map Some [0..<length (all_classes self)]"
    unfolding h' using numbered_classes [OF assms(2), of 0 ?h2] by simp
  have block: "map (rc_index h') (classes (regbanks self ! k)) =
      map Some [first_index self k..<first_index self k + length (classes (regbanks self ! k))]"
    if "k < length (regbanks self)" for k
    unfolding h' by (rule bank_block [OF assms(2) that])
  have at: "rc_index h' (classes (regbanks self ! k) ! i) = Some (first_index self k + i)"
    if "k < length (regbanks self)" and "i < length (classes (regbanks self ! k))" for k i
  proof -
    have "map (rc_index h') (classes (regbanks self ! k)) ! i =
        map Some [first_index self k..<first_index self k + length (classes (regbanks self ! k))] ! i"
      using block [OF that(1)] by simp
    then show ?thesis using that(2) by simp
  qed
  have inj: "inj_on (rc_index h') (set (all_classes self))"
  proof -
    have "distinct (map (rc_index h') (all_classes self))"
      unfolding all by (simp add: distinct_map)
    then show ?thesis by (simp add: distinct_map)
  qed
  have order: "\<exists>m n. rc_index h' c = Some m \<and> rc_index h' d = Some n \<and> m < n"
    if "j < k" and k: "k < length (regbanks self)"
      and c: "c \<in> set (classes (regbanks self ! j))" and d: "d \<in> set (classes (regbanks self ! k))"
    for j k c d
  proof -
    from that have j: "j < length (regbanks self)" by simp
    from c obtain a where a: "a < length (classes (regbanks self ! j))" "c = classes (regbanks self ! j) ! a"
      by (auto simp: in_set_conv_nth)
    from d obtain b where b: "b < length (classes (regbanks self ! k))" "d = classes (regbanks self ! k) ! b"
      by (auto simp: in_set_conv_nth)
    have "first_index self j + a < first_index self (Suc j)"
      using a(1) by (simp add: first_index_Suc [OF j])
    also have "\<dots> \<le> first_index self k"
      using \<open>j < k\<close> by (intro first_index_mono) simp
    finally have "first_index self j + a < first_index self k + b" by simp
    with at [OF j a(1)] at [OF k b(1)] a(2) b(2) show ?thesis by simp
  qed
  from all block inj order show ?thesis
    by (simp add: first_index_0 first_index_Suc) blast
qed

theorem regclasses_numbered_witness:
  "finish example_np example_isa example_heap = Inr (example_isa', example_heap') \<and>
   distinct (all_classes example_isa) \<and>
   all_classes example_isa = [0, 1, 2, 3, 4] \<and>
   map (rc_index example_heap') [0, 1, 2, 3, 4] = [Some 0, Some 1, Some 2, Some 3, Some 4] \<and>
   first_index example_isa 1 = 2 \<and>
   classes (regbanks example_isa ! 1) = [2, 3, 4] \<and>
   map (rc_index example_heap') [2, 3, 4] = [Some 2, Some 3, Some 4]"
proof -
  have d: "distinct (all_classes example_isa)" by (simp add: example_scans)
  note t = regclasses_numbered [OF example_finish d]
  from t have "map (rc_index example_heap') (all_classes example_isa) =
      map Some [0..<length (all_classes example_isa)]"
    by blast
  then have a: "map (rc_index example_heap') [0, 1, 2, 3, 4] = [Some 0, Some 1, Some 2, Some 3, Some 4]"
    by (simp add: example_scans)
  have b: "first_index example_isa 1 = 2" "classes (regbanks example_isa ! 1) = [2, 3, 4]"
    by (simp_all add: first_index_def example_isa_def)
  from a have c: "map (rc_index example_heap') [2, 3, 4] = [Some 2, Some 3, Some 4]" by simp
  from example_finish d a b c show ?thesis by (simp add: example_scans)
qed

section \<open>Calling finish again, and what finish leaves alone\<close>




text \<open>
  Claim C10. \<open>finish\<close> returns when the settings group is assigned or no encoding
  carries an ISA predicate. What it returns is \<open>self\<close>, changed in \<open>all_recipes\<close>,
  \<open>all_instps\<close> and the state of the settings group only: the name, the instruction
  groups, the CPU modes with their encodings and every field of these, and the register
  banks are as before. In the heap a recipe changes in its number at most, and only if
  an encoding refers to it; a predicate changes its number only if an encoding carries
  it as instruction predicate; a register class changes its index only if it belongs to
  a bank of the ISA; conjunction nodes are neither changed nor created. The settings
  group has seen \<open>number_predicate\<close> for the ISA predicates of the encodings, in scan
  order.
\<close>

theorem finish_frame:
  "(settings self \<noteq> None \<or> scan_isaps self = [] \<longrightarrow> (\<exists>self' h'. finish np self h = Inr (self', h'))) \<and>
   (finish np self h = Inr (self', h') \<longrightarrow>
      self' = self\<lparr>settings := settings self', all_recipes := all_recipes self',
                    all_instps := all_instps self'\<rparr> \<and>
      TargetISA.name self' = TargetISA.name self \<and>
      instruction_groups self' = instruction_groups self \<and>
      cpumodes self' = cpumodes self \<and>
      regbanks self' = regbanks self \<and>
      settings self' = map_option (fold (\<lambda>q g. np g q) (scan_isaps self)) (settings self) \<and>
      (\<forall>r. (recipes h' r)\<lparr>number := None\<rparr> = (recipes h r)\<lparr>number := None\<rparr>) \<and>
      (\<forall>r. r \<notin> set (scan_recipes self) \<longrightarrow> recipes h' r = recipes h r) \<and>
      (\<forall>p. p \<notin> set (scan_instps self) \<longrightarrow> pred_number h' p = pred_number h p) \<and>
      (\<forall>c. c \<notin> set (all_classes self) \<longrightarrow> rc_index h' c = rc_index h c) \<and>
      pred_parts h' = pred_parts h \<and> pred_fresh h' = pred_fresh h)"
proof -
  have "\<exists>self' h'. finish np self h = Inr (self', h')" if "settings self \<noteq> None \<or> scan_isaps self = []"
    using that by (auto simp: finish_eq)
  moreover have "self' = self\<lparr>settings := settings self', all_recipes := all_recipes self',
                    all_instps := all_instps self'\<rparr> \<and>
      TargetISA.name self' = TargetISA.name self \<and>
      instruction_groups self' = instruction_groups self \<and>
      cpumodes self' = cpumodes self \<and>
      regbanks self' = regbanks self \<and>
      settings self' = map_option (fold (\<lambda>q g. np g q) (scan_isaps self)) (settings self) \<and>
      (\<forall>r. (recipes h' r)\<lparr>number := None\<rparr> = (recipes h r)\<lparr>number := None\<rparr>) \<and>
      (\<forall>r. r \<notin> set (scan_recipes self) \<longrightarrow> recipes h' r = recipes h r) \<and>
      (\<forall>p. p \<notin> set (scan_instps self) \<longrightarrow> pred_number h' p = pred_number h p) \<and>
      (\<forall>c. c \<notin> set (all_classes self) \<longrightarrow> rc_index h' c = rc_index h c) \<and>
      pred_parts h' = pred_parts h \<and> pred_fresh h' = pred_fresh h"
    if ok: "finish np self h = Inr (self', h')"
  proof -
    let ?rs = "first_occurrences (scan_recipes self)"
    let ?ps = "first_occurrences (scan_instps self)"
    note self' = finish_Inr(1) [OF ok] and h' = finish_Inr(2) [OF ok]
    have r: "recipes h' = recipes (assign_numbers set_recipe_number 0 ?rs h)"
      unfolding h' by (simp add: class_numbering_frame pred_numbering_frame)
    have p: "pred_number h' = pred_number (assign_numbers set_pred_number 0 ?ps h)"
    proof
      fix q
      show "pred_number h' q = pred_number (assign_numbers set_pred_number 0 ?ps h) q"
      proof (cases "q \<in> set ?ps")
        case False
        then show ?thesis unfolding h'
          by (simp add: class_numbering_frame other_preds recipe_numbering_frame)
      next
        case True
        then obtain i where i: "i < length ?ps" "q = ?ps ! i" by (auto simp: in_set_conv_nth)
        have n: "pred_number (assign_numbers set_pred_number 0 ?ps g) (?ps ! i) = Some (0 + i)" for g
          by (rule assign_numbers_nth [of pred_number set_pred_number "\<lambda>n v. Some n", OF pred_number_upd
                first_occurrences_distinct i(1)])
        show ?thesis unfolding h' i(2) by (simp add: class_numbering_frame n)
      qed
    qed
    have c: "rc_index h' x = rc_index h x" if "x \<notin> set (all_classes self)" for x
      unfolding h' using that by (simp add: other_classes pred_numbering_frame recipe_numbering_frame)
    have "(\<lambda>r. (recipes h' r)\<lparr>number := None\<rparr>) = (\<lambda>r. (recipes h r)\<lparr>number := None\<rparr>)"
      unfolding r by (rule recipes_but_number)
    then have "\<forall>r. (recipes h' r)\<lparr>number := None\<rparr> = (recipes h r)\<lparr>number := None\<rparr>"
      by (simp add: fun_eq_iff)
    moreover have "\<forall>r. r \<notin> set (scan_recipes self) \<longrightarrow> recipes h' r = recipes h r"
      unfolding r by (simp add: other_recipes first_occurrences_set)
    moreover have "\<forall>p. p \<notin> set (scan_instps self) \<longrightarrow> pred_number h' p = pred_number h p"
      unfolding p by (simp add: other_preds first_occurrences_set)
    moreover have "pred_parts h' = pred_parts h" "pred_fresh h' = pred_fresh h"
      unfolding h' by (simp_all add: class_numbering_frame pred_numbering_frame recipe_numbering_frame)
    moreover have "self' = self\<lparr>settings := settings self', all_recipes := all_recipes self',
                    all_instps := all_instps self'\<rparr>"
      by (subst (1) self') (simp add: self')
    moreover have "settings self' = map_option (fold (\<lambda>q g. np g q) (scan_isaps self)) (settings self)"
      "TargetISA.name self' = TargetISA.name self" "instruction_groups self' = instruction_groups self"
      "cpumodes self' = cpumodes self" "regbanks self' = regbanks self"
      by (simp_all add: self')
    ultimately show ?thesis using c by blast
  qed
  ultimately show ?thesis by blast
qed

theorem finish_frame_witness:
  "settings example_isa = Some [] \<and>
   finish example_np example_isa example_heap = Inr (example_isa', example_heap') \<and>
   cpumodes example_isa' = cpumodes example_isa \<and>
   regbanks example_isa' = regbanks example_isa \<and>
   settings example_isa' = Some [11] \<and>
   recipes example_heap' 4 = recipes example_heap 4 \<and>
   (recipes example_heap' 1)\<lparr>number := None\<rparr> = (recipes example_heap 1)\<lparr>number := None\<rparr> \<and>
   pred_parts example_heap' = pred_parts example_heap"
proof -
  note t = finish_frame [where np = example_np and self = example_isa and h = example_heap
      and self' = example_isa' and h' = example_heap']
  have s: "settings example_isa = Some []" by (simp add: example_isa_def)
  from t example_finish have "cpumodes example_isa' = cpumodes example_isa"
    "regbanks example_isa' = regbanks example_isa"
    "pred_parts example_heap' = pred_parts example_heap"
    "(recipes example_heap' 1)\<lparr>number := None\<rparr> = (recipes example_heap 1)\<lparr>number := None\<rparr>"
    by blast+
  moreover have "settings example_isa' = Some [11]" "recipes example_heap' 4 = recipes example_heap 4"
    by (simp_all add: example_isa'_def example_heap'_def example_heap_def)
  ultimately show ?thesis using s example_finish by simp
qed

text \<open>
  Claim C5. Constructing an encoding fails with \<open>FormatMismatchError\<close> whenever the
  format of the resolved instruction differs from the format of the recipe, and an
  encoding that was constructed has an instruction of its recipe's format. Nothing
  invalidates this afterwards: constructing encodings leaves the recipes alone, \<open>enc\<close>
  appends the new encoding to those of the mode, and \<open>finish\<close> leaves the encodings and
  the format of every recipe as they are.
\<close>

theorem encoding_format_checked:
  "(Instruction.format (spec_inst inst_arg) \<noteq> EncRecipe.format (recipes h rcp) \<longrightarrow>
      Encoding_init cm inst_arg rcp bits ip sp h = Inl FormatMismatchError) \<and>
   (Encoding_init cm inst_arg rcp bits ip sp h = Inr (e, h') \<longrightarrow>
      inst e = spec_inst inst_arg \<and> recipe e = rcp \<and> recipes h' = recipes h \<and>
      Instruction.format (inst e) = EncRecipe.format (recipes h' (recipe e))) \<and>
   (enc cm m inst_arg rcp bits ip sp h = Inr (m', h') \<longrightarrow>
      recipes h' = recipes h \<and>
      (\<exists>e'. encodings m' = encodings m @ [e'] \<and>
            Instruction.format (inst e') = EncRecipe.format (recipes h' (recipe e')))) \<and>
   (finish np self g = Inr (self', g') \<longrightarrow>
      scan self' = scan self \<and>
      (\<forall>r. EncRecipe.format (recipes g' r) = EncRecipe.format (recipes g r)))"
proof -
  have a: "Instruction.format (spec_inst inst_arg) \<noteq> EncRecipe.format (recipes h rcp) \<longrightarrow>
      Encoding_init cm inst_arg rcp bits ip sp h = Inl FormatMismatchError"
    by (simp add: Encoding_init_eq)
  have b: "inst x = spec_inst inst_arg \<and> recipe x = rcp \<and> recipes k = recipes h \<and>
      Instruction.format (inst x) = EncRecipe.format (recipes k (recipe x))"
    if "Encoding_init cm inst_arg rcp bits ip sp h = Inr (x, k)" for x k
    using that
    by (auto simp: Encoding_init_eq And_combine_recipes resolved_instp_recipes split: if_splits)
  have c: "recipes h' = recipes h \<and>
      (\<exists>e'. encodings m' = encodings m @ [e'] \<and>
            Instruction.format (inst e') = EncRecipe.format (recipes h' (recipe e')))"
    if "enc cm m inst_arg rcp bits ip sp h = Inr (m', h')"
  proof -
    from that obtain x where x: "Encoding_init cm inst_arg rcp bits ip sp h = Inr (x, h')"
      and m': "m' = m\<lparr>encodings := encodings m @ [x]\<rparr>"
      by (auto simp: enc_def split: sum.splits)
    from b [OF x] have r: "recipes h' = recipes h"
      and f: "Instruction.format (inst x) = EncRecipe.format (recipes h' (recipe x))"
      by blast+
    from m' have "encodings m' = encodings m @ [x]" by simp
    with r f show ?thesis by blast
  qed
  have d: "scan self' = scan self \<and>
      (\<forall>r. EncRecipe.format (recipes g' r) = EncRecipe.format (recipes g r))"
    if ok: "finish np self g = Inr (self', g')"
  proof -
    have "recipes g' = recipes (assign_numbers set_recipe_number 0 (first_occurrences (scan_recipes self)) g)"
      unfolding finish_Inr(2) [OF ok] by (simp add: class_numbering_frame pred_numbering_frame)
    then have "(\<lambda>r. (recipes g' r)\<lparr>number := None\<rparr>) = (\<lambda>r. (recipes g r)\<lparr>number := None\<rparr>)"
      by (simp add: recipes_but_number)
    then have "EncRecipe.format ((recipes g' r)\<lparr>number := None\<rparr>) =
        EncRecipe.format ((recipes g r)\<lparr>number := None\<rparr>)" for r
      by (simp add: fun_eq_iff)
    then show ?thesis using finish_scans(1) [OF ok] by simp
  qed
  from a b c d show ?thesis by blast
qed

theorem encoding_format_checked_witness:
  "Instruction.format (spec_inst (Bound example_jump [])) \<noteq> EncRecipe.format (recipes example_heap 1) \<and>
   Encoding_init 0 (Bound example_jump []) 1 0 None None example_heap = Inl FormatMismatchError \<and>
   Encoding_init 0 (Bound example_add [''i32'']) 1 16 None None example_heap =
     Inr (example_enc example_add 0 1 16 (Some 3) None, example_heap) \<and>
   Instruction.format (inst (example_enc example_add 0 1 16 (Some 3) None)) =
     EncRecipe.format (recipes example_heap 1) \<and>
   finish example_np example_isa example_heap = Inr (example_isa', example_heap') \<and>
   scan example_isa' = scan example_isa \<and>
   EncRecipe.format (recipes example_heap' 1) = EncRecipe.format (recipes example_heap 1)"
proof -
  note t1 = encoding_format_checked [where inst_arg = "Bound example_jump []" and h = example_heap
      and rcp = 1 and cm = 0 and bits = 0 and ip = None and sp = None
      and np = example_np and self = example_isa and g = example_heap
      and self' = example_isa' and g' = example_heap']
  note t2 = encoding_format_checked [where inst_arg = "Bound example_add [''i32'']" and h = example_heap
      and rcp = 1 and cm = 0 and bits = 16 and ip = None and sp = None
      and e = "example_enc example_add 0 1 16 (Some 3) None" and h' = example_heap
      and np = example_np and self = example_isa and g = example_heap
      and self' = example_isa' and g' = example_heap']
  have ne: "Instruction.format (spec_inst (Bound example_jump [])) \<noteq> EncRecipe.format (recipes example_heap 1)"
    by (simp add: example_heap_def example_jump_def example_R1_def example_F_def example_J_def)
  from t1 ne have f: "Encoding_init 0 (Bound example_jump []) 1 0 None None example_heap = Inl FormatMismatchError"
    by blast
  from t2 example_encoding have m: "Instruction.format (inst (example_enc example_add 0 1 16 (Some 3) None)) =
     EncRecipe.format (recipes example_heap 1)"
    by simp
  from t1 example_finish have s: "scan example_isa' = scan example_isa"
    "EncRecipe.format (recipes example_heap' 1) = EncRecipe.format (recipes example_heap 1)"
    by blast+
  from ne f m s example_encoding example_finish show ?thesis by simp
qed

end
